theory Spec2Isabelle
  imports Main "HOL-Library.Word"
begin

unbundle bit_operations_syntax

section \<open>The shell of kernel/kernel.c: data model\<close>

text \<open>
  The kernel is a 32-bit program: \<open>uint32_t\<close> is \<open>32 word\<close>, \<open>uint8_t\<close> is \<open>8 word\<close>,
  pointers are 32-bit addresses with 0 as the null pointer.  A C string is modelled by
  the list of its characters before the terminating NUL; \<open>strlen\<close> is \<open>length\<close> and
  \<open>strcmp(a, b) == 0\<close> is equality of these lists.  A \<open>char*\<close> that may be null is a
  \<open>string option\<close>.
\<close>

type_synonym u32 = "32 word"
type_synonym u8 = "8 word"

definition MAX_FILES :: nat where
  "MAX_FILES = 16"

definition MAX_NAME :: nat where
  "MAX_NAME = 16"

text \<open>
  \<open>FsEntry\<close>.  The field \<open>size\<close> of the source is called \<open>size_req\<close> here, since
  \<open>size\<close> is a constant of HOL.  The field \<open>name\<close> is a \<open>char[MAX_NAME]\<close>; the model keeps
  the C string it holds.
\<close>

record FsEntry =
  name :: string
  size_req :: u32
  alloc_bytes :: u32
  data :: u32
  phys :: u32
  used :: u8

text \<open>
  The collaborators that kernel.c calls and does not define: the page allocator
  \<open>kmalloc(size, align, &phys)\<close>, which returns the virtual address, stores the physical
  one and changes its own state \<open>'h\<close>, and the formatter \<open>hex_to_ascii\<close>.  They are
  parameters of the model.
\<close>

record 'h collab =
  kmalloc :: "u32 \<Rightarrow> int \<Rightarrow> 'h \<Rightarrow> u32 \<times> u32 \<times> 'h"
  hex_to_ascii :: "u32 \<Rightarrow> string"

text \<open>
  The state of the kernel: the directory table \<open>g_dir\<close>, the state of the allocator, and
  whether the CPU has executed \<open>hlt\<close>.  \<open>g_dir_count\<close> is initialised to \<open>MAX_FILES\<close> and
  never assigned.
\<close>

record 'h kstate =
  g_dir :: "FsEntry list"
  heap :: 'h
  halted :: bool

definition g_dir_count :: nat where
  "g_dir_count = MAX_FILES"

section \<open>Small helpers\<close>

definition upper_char :: "char \<Rightarrow> char" where
  "upper_char c =
     (let n = (of_char c :: nat)
      in if 97 \<le> n \<and> n \<le> 122 then char_of (n - 97 + 65) else c)"

definition to_upper_inplace :: "string \<Rightarrow> string" where
  "to_upper_inplace s = map upper_char s"

definition is_space :: "char \<Rightarrow> bool" where
  "is_space c = (c = CHR '' '')"

text \<open>\<open>next_token\<close> skips spaces and returns null at the end of the string.\<close>

fun next_token :: "string option \<Rightarrow> string option" where
  "next_token None = None"
| "next_token (Some p) =
     (let r = dropWhile is_space p in if r = [] then None else Some r)"

text \<open>
  \<open>cut_token\<close> writes a NUL over the first space at or after \<open>p\<close>, so the string at \<open>p\<close>
  becomes the token (first component), and returns the pointer behind that space, or null
  when the string ends first (second component).
\<close>

definition cut_token :: "string \<Rightarrow> string \<times> string option" where
  "cut_token p =
     (let r = dropWhile (\<lambda>c. \<not> is_space c) p
      in (takeWhile (\<lambda>c. \<not> is_space c) p, if r = [] then None else Some (tl r)))"

text \<open>\<open>copy_bounded\<close>: the string left in \<open>dst\<close>.\<close>

definition copy_bounded :: "string \<Rightarrow> string option \<Rightarrow> int \<Rightarrow> string" where
  "copy_bounded dst src maxlen =
     (if maxlen \<le> 0 then dst
      else case src of None \<Rightarrow> [] | Some t \<Rightarrow> take (nat (maxlen - 1)) t)"

function dec_loop :: "u32 \<Rightarrow> nat \<Rightarrow> string \<Rightarrow> string" where
  "dec_loop v i buf =
     (if v \<noteq> 0 \<and> i < 15
      then dec_loop (v div 10) (i + 1) (buf @ [char_of (48 + unat (v mod 10))])
      else buf)"
  by pat_completeness auto
termination
  by (relation "measure (\<lambda>(v, i, buf). 15 - i)") auto

definition dec_to_ascii :: "u32 \<Rightarrow> string" where
  "dec_to_ascii v = (if v = 0 then ''0'' else rev (dec_loop v 0 []))"

definition is_digit :: "char \<Rightarrow> bool" where
  "is_digit c = (48 \<le> (of_char c :: nat) \<and> (of_char c :: nat) \<le> 57)"

text \<open>The digit loop of \<open>parse_uint\<close>: the value so far and the flag \<open>any\<close>.\<close>

fun parse_digits :: "u32 \<Rightarrow> bool \<Rightarrow> string \<Rightarrow> u32 \<times> bool" where
  "parse_digits v any [] = (v, any)"
| "parse_digits v any (c # s) =
     (if is_digit c then parse_digits (v * 10 + of_nat (of_char c - 48)) True s
      else (v, any))"

definition parse_uint :: "string \<Rightarrow> u32" where
  "parse_uint s =
     (case parse_digits 0 False (dropWhile is_space s) of
        (v, any) \<Rightarrow> if any then v else 0)"

definition round_up_page :: "u32 \<Rightarrow> u32" where
  "round_up_page n = (let P = (4096 :: u32) in (n + P - 1) AND NOT (P - 1))"

text \<open>\<open>fs_find\<close>: the first index whose slot is used and carries the name; \<open>None\<close> is -1.\<close>

definition fs_find :: "FsEntry list \<Rightarrow> string \<Rightarrow> nat option" where
  "fs_find d nm =
     List.find (\<lambda>i. used (d ! i) \<noteq> 0 \<and> name (d ! i) = nm) [0..<g_dir_count]"

text \<open>The slot search of \<open>cmd_create\<close>: the first index whose slot is free.\<close>

definition free_slot :: "FsEntry list \<Rightarrow> nat option" where
  "free_slot d = List.find (\<lambda>i. used (d ! i) = 0) [0..<g_dir_count]"

text \<open>
  \<open>fs_init\<close> obtains the table from \<open>kmalloc\<close> and clears the \<open>used\<close> flag of each slot;
  the other fields keep what the memory held (\<open>raw i\<close> for slot \<open>i\<close>).  36 is
  \<open>sizeof(FsEntry)\<close>.  The code does not test the pointer; the table is taken to exist.
\<close>

definition fs_init :: "'h collab \<Rightarrow> (nat \<Rightarrow> FsEntry) \<Rightarrow> 'h \<Rightarrow> string \<times> 'h kstate" where
  "fs_init ext raw h =
     (case kmalloc ext (of_nat (36 * MAX_FILES)) 1 h of
        (dir_addr, dir_phys, h') \<Rightarrow>
          (''FS init. dir@'' @ hex_to_ascii ext dir_addr @ '' phys@''
             @ hex_to_ascii ext dir_phys @ [CHR 0x0A],
           \<lparr>g_dir = map (\<lambda>i. (raw i)\<lparr>used := 0\<rparr>) [0..<MAX_FILES], heap = h',
            halted = False\<rparr>))"

section \<open>Commands\<close>

text \<open>
  Every command returns the text it prints with \<open>kprint\<close> and the new state.
\<close>

definition list_entry :: "'h collab \<Rightarrow> FsEntry \<Rightarrow> string" where
  "list_entry ext e =
     ''  '' @ name e @ ''  size='' @ dec_to_ascii (size_req e) @ ''B alloc=''
       @ dec_to_ascii (alloc_bytes e) @ ''B v@'' @ hex_to_ascii ext (data e)
       @ '' p@'' @ hex_to_ascii ext (phys e) @ [CHR 0x0A]"

definition cmd_list :: "'h collab \<Rightarrow> 'h kstate \<Rightarrow> string \<times> 'h kstate" where
  "cmd_list ext s =
     (''FILES:'' @ [CHR 0x0A]
        @ concat (map (\<lambda>i. if used (g_dir s ! i) = 0 then []
                           else list_entry ext (g_dir s ! i)) [0..<g_dir_count]),
      s)"

text \<open>
  \<open>cmd_create\<close>.  The region that \<open>kmalloc\<close> returns is filled with zeros; its contents
  are read by no command and are not part of the state.  The regions are taken to lie
  outside the directory table.
\<close>

definition cmd_create ::
  "'h collab \<Rightarrow> string option \<Rightarrow> string option \<Rightarrow> 'h kstate \<Rightarrow> string \<times> 'h kstate" where
  "cmd_create ext nm size_str s =
     (case (nm, size_str) of
        (Some n, Some sz) \<Rightarrow>
          if n = [] \<or> sz = [] then (''usage: CREATE <name> <size>'' @ [CHR 0x0A], s)
          else if length n \<ge> MAX_NAME then (''ERR: name too long'' @ [CHR 0x0A], s)
          else if fs_find (g_dir s) n \<noteq> None then (''ERR: exists'' @ [CHR 0x0A], s)
          else
            let req = parse_uint sz in
            if req = 0 then (''ERR: size must be > 0'' @ [CHR 0x0A], s)
            else
              (case free_slot (g_dir s) of
                 None \<Rightarrow> (''ERR: directory full'' @ [CHR 0x0A], s)
               | Some slot \<Rightarrow>
                   let alloc = round_up_page req in
                   (case kmalloc ext alloc 1 (heap s) of
                      (dat, ph, h') \<Rightarrow>
                        if dat = 0 then (''ERR: kmalloc failed'' @ [CHR 0x0A], s\<lparr>heap := h'\<rparr>)
                        else
                          (''OK'' @ [CHR 0x0A],
                           s\<lparr>g_dir := (g_dir s)[slot :=
                                \<lparr>name = copy_bounded (name (g_dir s ! slot)) (Some n)
                                          (int MAX_NAME),
                                 size_req = req, alloc_bytes = alloc, data = dat,
                                 phys = ph, used = 1\<rparr>],
                             heap := h'\<rparr>)))
      | _ \<Rightarrow> (''usage: CREATE <name> <size>'' @ [CHR 0x0A], s))"

definition cmd_rename ::
  "string option \<Rightarrow> string option \<Rightarrow> 'h kstate \<Rightarrow> string \<times> 'h kstate" where
  "cmd_rename oldn newn s =
     (case (oldn, newn) of
        (Some old, Some new) \<Rightarrow>
          if old = [] \<or> new = [] then (''usage: RENAME <old> <new>'' @ [CHR 0x0A], s)
          else if length new \<ge> MAX_NAME then (''ERR: name too long'' @ [CHR 0x0A], s)
          else
            (case fs_find (g_dir s) old of
               None \<Rightarrow> (''ERR: not found'' @ [CHR 0x0A], s)
             | Some idx \<Rightarrow>
                 if fs_find (g_dir s) new \<noteq> None then (''ERR: exists'' @ [CHR 0x0A], s)
                 else
                   (''OK'' @ [CHR 0x0A],
                    s\<lparr>g_dir := (g_dir s)[idx := (g_dir s ! idx)
                         \<lparr>name := copy_bounded (name (g_dir s ! idx)) (Some new)
                                    (int MAX_NAME)\<rparr>]\<rparr>))
      | _ \<Rightarrow> (''usage: RENAME <old> <new>'' @ [CHR 0x0A], s))"

definition cmd_del :: "string option \<Rightarrow> 'h kstate \<Rightarrow> string \<times> 'h kstate" where
  "cmd_del nm s =
     (case nm of
        Some n \<Rightarrow>
          if n = [] then (''usage: DEL <name>'' @ [CHR 0x0A], s)
          else
            (case fs_find (g_dir s) n of
               None \<Rightarrow> (''ERR: not found'' @ [CHR 0x0A], s)
             | Some idx \<Rightarrow>
                 (''OK'' @ [CHR 0x0A],
                  s\<lparr>g_dir := (g_dir s)[idx :=
                       \<lparr>name = [], size_req = 0, alloc_bytes = 0, data = 0, phys = 0,
                        used = 0\<rparr>]\<rparr>))
      | None \<Rightarrow> (''usage: DEL <name>'' @ [CHR 0x0A], s))"

section \<open>The shell hook\<close>

text \<open>
  The parsing block of \<open>user_input\<close>: the keyword is cut, the first argument is cut, the
  second argument is what \<open>next_token\<close> returns and is not cut.  \<open>None\<close> when the line has
  no keyword.
\<close>

definition parse_line :: "string \<Rightarrow> (string \<times> string option \<times> string option) option" where
  "parse_line input =
     (case next_token (Some input) of
        None \<Rightarrow> None
      | Some cmd \<Rightarrow>
          (case cut_token cmd of
             (cmd_tok, p) \<Rightarrow>
               (case next_token p of
                  None \<Rightarrow> Some (cmd_tok, None, next_token p)
                | Some arg1 \<Rightarrow>
                    (case cut_token arg1 of
                       (arg1_tok, p') \<Rightarrow> Some (cmd_tok, Some arg1_tok, next_token p')))))"

definition dispatch ::
  "'h collab \<Rightarrow> string \<Rightarrow> string option \<Rightarrow> string option \<Rightarrow> 'h kstate \<Rightarrow> string \<times> 'h kstate" where
  "dispatch ext cmd arg1 arg2 s =
     (if cmd = ''LIST'' then cmd_list ext s
      else if cmd = ''CREATE'' then cmd_create ext arg1 arg2 s
      else if cmd = ''RENAME'' then cmd_rename arg1 arg2 s
      else if cmd = ''DEL'' then cmd_del arg1 s
      else (''Unknown command'' @ [CHR 0x0A], s))"

definition user_input :: "'h collab \<Rightarrow> string \<Rightarrow> 'h kstate \<Rightarrow> string \<times> 'h kstate" where
  "user_input ext input s =
     (let inp = to_upper_inplace input in
      if inp = ''END'' then (''Stopping the CPU. Bye!'' @ [CHR 0x0A], s\<lparr>halted := True\<rparr>)
      else if inp = ''PAGE'' then
        (case kmalloc ext 1000 1 (heap s) of
           (page, phys_addr, h') \<Rightarrow>
             (''Page: '' @ hex_to_ascii ext page @ '', physical address: ''
                @ hex_to_ascii ext phys_addr @ [CHR 0x0A] @ ''> '',
              s\<lparr>heap := h'\<rparr>))
      else
        (case parse_line inp of
           None \<Rightarrow> (''> '', s)
         | Some (cmd, arg1, arg2) \<Rightarrow>
             (case dispatch ext cmd arg1 arg2 s of
                (out, s') \<Rightarrow> (out @ ''> '', s'))))"

section \<open>The line loop and the reachable states\<close>

text \<open>
  Modelled from the spec: the caller of \<open>user_input\<close> (the keyboard driver, which is not
  part of kernel.c) and the effect of the \<open>hlt\<close> instruction.  The spec, section 4.4:
  on \<open>END\<close> the processor "stops accepting further input"; section 5: one input line is
  fully processed before the next is accepted.  So the lines are handed to \<open>user_input\<close>
  in order, and none is handed over once the CPU is halted.
\<close>

fun shell :: "'h collab \<Rightarrow> string list \<Rightarrow> 'h kstate \<Rightarrow> string \<times> 'h kstate" where
  "shell ext [] s = ([], s)"
| "shell ext (l # ls) s =
     (if halted s then ([], s)
      else case user_input ext l s of
             (out, s') \<Rightarrow> (case shell ext ls s' of (outs, s'') \<Rightarrow> (out @ outs, s'')))"

text \<open>
  The states the kernel can be in: the one \<open>fs_init\<close> builds, from any memory contents
  and any allocator state, and those that \<open>user_input\<close> leads to.  (Steps from a halted
  state are included, so the set contains the states of every actual run.)
\<close>

inductive reachable :: "'h collab \<Rightarrow> 'h kstate \<Rightarrow> bool" for ext :: "'h collab" where
  reach_init: "reachable ext (snd (fs_init ext raw h))"
| reach_step: "reachable ext s \<Longrightarrow> reachable ext (snd (user_input ext line s))"

section \<open>Properties of the table and of the printed text\<close>

text \<open>A slot with every field cleared, as \<open>cmd_del\<close> leaves it.\<close>

definition blank_entry :: FsEntry where
  "blank_entry = \<lparr>name = [], size_req = 0, alloc_bytes = 0, data = 0, phys = 0, used = 0\<rparr>"

text \<open>Name uniqueness among the used slots of a table.\<close>

definition names_unique :: "FsEntry list \<Rightarrow> bool" where
  "names_unique d =
     (\<forall>i<MAX_FILES. \<forall>j<MAX_FILES.
        used (d ! i) \<noteq> 0 \<and> used (d ! j) \<noteq> 0 \<and> name (d ! i) = name (d ! j) \<longrightarrow> i = j)"

text \<open>A string without the letters \<open>a\<close> to \<open>z\<close>.\<close>

definition no_lowercase :: "string \<Rightarrow> bool" where
  "no_lowercase t = list_all (\<lambda>c. \<not> (97 \<le> (of_char c :: nat) \<and> (of_char c :: nat) \<le> 122)) t"

definition names_upper :: "FsEntry list \<Rightarrow> bool" where
  "names_upper d = (\<forall>i<MAX_FILES. used (d ! i) \<noteq> 0 \<longrightarrow> no_lowercase (name (d ! i)))"

text \<open>Every used slot carries a size other than 0 and the page rounding of that size.\<close>

definition sizes_rounded :: "FsEntry list \<Rightarrow> bool" where
  "sizes_rounded d =
     (\<forall>i<MAX_FILES. used (d ! i) \<noteq> 0 \<longrightarrow>
        size_req (d ! i) \<noteq> 0 \<and> alloc_bytes (d ! i) = round_up_page (size_req (d ! i)))"

text \<open>
  The text printed for one input line, cut at the newlines, and the test for a domain
  error: some line of it begins with \<open>ERR:\<close> or with \<open>usage:\<close>.
\<close>

fun lines_of :: "string \<Rightarrow> string list" where
  "lines_of [] = [[]]"
| "lines_of (c # cs) =
     (if c = CHR 0x0A then [] # lines_of cs
      else (case lines_of cs of [] \<Rightarrow> [[c]] | l # ls \<Rightarrow> (c # l) # ls))"

definition reports_error :: "string \<Rightarrow> bool" where
  "reports_error out =
     list_ex (\<lambda>l. take 4 l = ''ERR:'' \<or> take 6 l = ''usage:'') (lines_of out)"

section \<open>Sample collaborators and runs, for concrete instances\<close>

text \<open>
  Modelled from the spec: the page allocator behind \<open>kmalloc\<close> (its source is not part of
  kernel.c).  The spec, section 2: it returns "page-aligned" regions as "a
  (logical-address, physical-address) pair".  This one hands out consecutive
  page-aligned regions, with the physical address equal to the logical one; its state is
  the next free address.
\<close>

definition bump_kmalloc :: "u32 \<Rightarrow> int \<Rightarrow> u32 \<Rightarrow> u32 \<times> u32 \<times> u32" where
  "bump_kmalloc sz align free =
     (let a = (if align = 1 \<and> free AND 0xFFF \<noteq> 0 then (free AND NOT 0xFFF) + 0x1000
               else free)
      in (a, a, a + sz))"

text \<open>
  Modelled from the spec: \<open>hex_to_ascii\<close> (its source is not part of kernel.c).  The spec,
  section 6: a helper "producing fixed-width ASCII representations of unsigned
  integers"; here \<open>0x\<close> and eight hexadecimal digits.
\<close>

definition hex_digit :: "u32 \<Rightarrow> char" where
  "hex_digit d = (if d < 10 then char_of (48 + unat d) else char_of (87 + unat d))"

definition hex8 :: "u32 \<Rightarrow> string" where
  "hex8 n = ''0x'' @ map (\<lambda>k. hex_digit (drop_bit (4 * k) n AND 0xF)) [7, 6, 5, 4, 3, 2, 1, 0]"

definition demo_ext :: "u32 collab" where
  "demo_ext = \<lparr>kmalloc = bump_kmalloc, hex_to_ascii = hex8\<rparr>"

text \<open>The state after \<open>fs_init\<close> on zeroed memory, with the allocator at 0x10000.\<close>

definition demo_boot :: "u32 kstate" where
  "demo_boot = snd (fs_init demo_ext (\<lambda>i. blank_entry) 0x10000)"

text \<open>A run with two files, for concrete instances.\<close>

definition demo_two :: "u32 kstate" where
  "demo_two = snd (shell demo_ext [''create foo 10'', ''create bar 20''] demo_boot)"

text \<open>A run that fills all sixteen slots, and the same run followed by one \<open>DEL\<close>.\<close>

definition demo_full :: "u32 kstate" where
  "demo_full =
     snd (shell demo_ext
       [''create f0 1'', ''create f1 1'', ''create f2 1'', ''create f3 1'',
        ''create f4 1'', ''create f5 1'', ''create f6 1'', ''create f7 1'',
        ''create f8 1'', ''create f9 1'', ''create fa 1'', ''create fb 1'',
        ''create fc 1'', ''create fd 1'', ''create fe 1'', ''create ff 1''] demo_boot)"

definition demo_del :: "u32 kstate" where
  "demo_del = snd (cmd_del (Some ''F3'') demo_full)"

section \<open>Facts about the helpers and the commands\<close>

text \<open>The sample states, evaluated once.\<close>

lemma demo_boot_eq [code]:
  "demo_boot =
     \<lparr>g_dir =
       [\<lparr>name = [], size_req = 0, alloc_bytes = 0, data = 0, phys = 0, used = 0\<rparr>,
        \<lparr>name = [], size_req = 0, alloc_bytes = 0, data = 0, phys = 0, used = 0\<rparr>,
        \<lparr>name = [], size_req = 0, alloc_bytes = 0, data = 0, phys = 0, used = 0\<rparr>,
        \<lparr>name = [], size_req = 0, alloc_bytes = 0, data = 0, phys = 0, used = 0\<rparr>,
        \<lparr>name = [], size_req = 0, alloc_bytes = 0, data = 0, phys = 0, used = 0\<rparr>,
        \<lparr>name = [], size_req = 0, alloc_bytes = 0, data = 0, phys = 0, used = 0\<rparr>,
        \<lparr>name = [], size_req = 0, alloc_bytes = 0, data = 0, phys = 0, used = 0\<rparr>,
        \<lparr>name = [], size_req = 0, alloc_bytes = 0, data = 0, phys = 0, used = 0\<rparr>,
        \<lparr>name = [], size_req = 0, alloc_bytes = 0, data = 0, phys = 0, used = 0\<rparr>,
        \<lparr>name = [], size_req = 0, alloc_bytes = 0, data = 0, phys = 0, used = 0\<rparr>,
        \<lparr>name = [], size_req = 0, alloc_bytes = 0, data = 0, phys = 0, used = 0\<rparr>,
        \<lparr>name = [], size_req = 0, alloc_bytes = 0, data = 0, phys = 0, used = 0\<rparr>,
        \<lparr>name = [], size_req = 0, alloc_bytes = 0, data = 0, phys = 0, used = 0\<rparr>,
        \<lparr>name = [], size_req = 0, alloc_bytes = 0, data = 0, phys = 0, used = 0\<rparr>,
        \<lparr>name = [], size_req = 0, alloc_bytes = 0, data = 0, phys = 0, used = 0\<rparr>,
        \<lparr>name = [], size_req = 0, alloc_bytes = 0, data = 0, phys = 0, used = 0\<rparr>],
     heap = 66112, halted = False\<rparr>"
  by (simp add: demo_boot_def fs_init_def demo_ext_def bump_kmalloc_def MAX_FILES_def
        blank_entry_def upt_rec)

lemma demo_two_eq [code]:
  "demo_two =
     \<lparr>g_dir =
       [\<lparr>name = ''FOO'', size_req = 10, alloc_bytes = 4096, data = 69632, phys = 69632, used = 1\<rparr>,
        \<lparr>name = ''BAR'', size_req = 20, alloc_bytes = 4096, data = 73728, phys = 73728, used = 1\<rparr>,
        \<lparr>name = [], size_req = 0, alloc_bytes = 0, data = 0, phys = 0, used = 0\<rparr>,
        \<lparr>name = [], size_req = 0, alloc_bytes = 0, data = 0, phys = 0, used = 0\<rparr>,
        \<lparr>name = [], size_req = 0, alloc_bytes = 0, data = 0, phys = 0, used = 0\<rparr>,
        \<lparr>name = [], size_req = 0, alloc_bytes = 0, data = 0, phys = 0, used = 0\<rparr>,
        \<lparr>name = [], size_req = 0, alloc_bytes = 0, data = 0, phys = 0, used = 0\<rparr>,
        \<lparr>name = [], size_req = 0, alloc_bytes = 0, data = 0, phys = 0, used = 0\<rparr>,
        \<lparr>name = [], size_req = 0, alloc_bytes = 0, data = 0, phys = 0, used = 0\<rparr>,
        \<lparr>name = [], size_req = 0, alloc_bytes = 0, data = 0, phys = 0, used = 0\<rparr>,
        \<lparr>name = [], size_req = 0, alloc_bytes = 0, data = 0, phys = 0, used = 0\<rparr>,
        \<lparr>name = [], size_req = 0, alloc_bytes = 0, data = 0, phys = 0, used = 0\<rparr>,
        \<lparr>name = [], size_req = 0, alloc_bytes = 0, data = 0, phys = 0, used = 0\<rparr>,
        \<lparr>name = [], size_req = 0, alloc_bytes = 0, data = 0, phys = 0, used = 0\<rparr>,
        \<lparr>name = [], size_req = 0, alloc_bytes = 0, data = 0, phys = 0, used = 0\<rparr>,
        \<lparr>name = [], size_req = 0, alloc_bytes = 0, data = 0, phys = 0, used = 0\<rparr>],
     heap = 77824, halted = False\<rparr>"
  unfolding demo_two_def by code_simp

lemma demo_full_eq [code]:
  "demo_full =
     \<lparr>g_dir =
       [\<lparr>name = ''F0'', size_req = 1, alloc_bytes = 4096, data = 69632, phys = 69632, used = 1\<rparr>,
        \<lparr>name = ''F1'', size_req = 1, alloc_bytes = 4096, data = 73728, phys = 73728, used = 1\<rparr>,
        \<lparr>name = ''F2'', size_req = 1, alloc_bytes = 4096, data = 77824, phys = 77824, used = 1\<rparr>,
        \<lparr>name = ''F3'', size_req = 1, alloc_bytes = 4096, data = 81920, phys = 81920, used = 1\<rparr>,
        \<lparr>name = ''F4'', size_req = 1, alloc_bytes = 4096, data = 86016, phys = 86016, used = 1\<rparr>,
        \<lparr>name = ''F5'', size_req = 1, alloc_bytes = 4096, data = 90112, phys = 90112, used = 1\<rparr>,
        \<lparr>name = ''F6'', size_req = 1, alloc_bytes = 4096, data = 94208, phys = 94208, used = 1\<rparr>,
        \<lparr>name = ''F7'', size_req = 1, alloc_bytes = 4096, data = 98304, phys = 98304, used = 1\<rparr>,
        \<lparr>name = ''F8'', size_req = 1, alloc_bytes = 4096, data = 102400, phys = 102400, used = 1\<rparr>,
        \<lparr>name = ''F9'', size_req = 1, alloc_bytes = 4096, data = 106496, phys = 106496, used = 1\<rparr>,
        \<lparr>name = ''FA'', size_req = 1, alloc_bytes = 4096, data = 110592, phys = 110592, used = 1\<rparr>,
        \<lparr>name = ''FB'', size_req = 1, alloc_bytes = 4096, data = 114688, phys = 114688, used = 1\<rparr>,
        \<lparr>name = ''FC'', size_req = 1, alloc_bytes = 4096, data = 118784, phys = 118784, used = 1\<rparr>,
        \<lparr>name = ''FD'', size_req = 1, alloc_bytes = 4096, data = 122880, phys = 122880, used = 1\<rparr>,
        \<lparr>name = ''FE'', size_req = 1, alloc_bytes = 4096, data = 126976, phys = 126976, used = 1\<rparr>,
        \<lparr>name = ''FF'', size_req = 1, alloc_bytes = 4096, data = 131072, phys = 131072, used = 1\<rparr>],
     heap = 135168, halted = False\<rparr>"
  unfolding demo_full_def by code_simp

lemma demo_del_eq [code]:
  "demo_del =
     \<lparr>g_dir =
       [\<lparr>name = ''F0'', size_req = 1, alloc_bytes = 4096, data = 69632, phys = 69632, used = 1\<rparr>,
        \<lparr>name = ''F1'', size_req = 1, alloc_bytes = 4096, data = 73728, phys = 73728, used = 1\<rparr>,
        \<lparr>name = ''F2'', size_req = 1, alloc_bytes = 4096, data = 77824, phys = 77824, used = 1\<rparr>,
        \<lparr>name = [], size_req = 0, alloc_bytes = 0, data = 0, phys = 0, used = 0\<rparr>,
        \<lparr>name = ''F4'', size_req = 1, alloc_bytes = 4096, data = 86016, phys = 86016, used = 1\<rparr>,
        \<lparr>name = ''F5'', size_req = 1, alloc_bytes = 4096, data = 90112, phys = 90112, used = 1\<rparr>,
        \<lparr>name = ''F6'', size_req = 1, alloc_bytes = 4096, data = 94208, phys = 94208, used = 1\<rparr>,
        \<lparr>name = ''F7'', size_req = 1, alloc_bytes = 4096, data = 98304, phys = 98304, used = 1\<rparr>,
        \<lparr>name = ''F8'', size_req = 1, alloc_bytes = 4096, data = 102400, phys = 102400, used = 1\<rparr>,
        \<lparr>name = ''F9'', size_req = 1, alloc_bytes = 4096, data = 106496, phys = 106496, used = 1\<rparr>,
        \<lparr>name = ''FA'', size_req = 1, alloc_bytes = 4096, data = 110592, phys = 110592, used = 1\<rparr>,
        \<lparr>name = ''FB'', size_req = 1, alloc_bytes = 4096, data = 114688, phys = 114688, used = 1\<rparr>,
        \<lparr>name = ''FC'', size_req = 1, alloc_bytes = 4096, data = 118784, phys = 118784, used = 1\<rparr>,
        \<lparr>name = ''FD'', size_req = 1, alloc_bytes = 4096, data = 122880, phys = 122880, used = 1\<rparr>,
        \<lparr>name = ''FE'', size_req = 1, alloc_bytes = 4096, data = 126976, phys = 126976, used = 1\<rparr>,
        \<lparr>name = ''FF'', size_req = 1, alloc_bytes = 4096, data = 131072, phys = 131072, used = 1\<rparr>],
     heap = 135168, halted = False\<rparr>"
  unfolding demo_del_def by code_simp

lemma fs_find_None: "fs_find d n = None \<longleftrightarrow> (\<forall>i<MAX_FILES. used (d ! i) \<noteq> 0 \<longrightarrow> name (d ! i) \<noteq> n)"
  by (auto simp: fs_find_def find_None_iff g_dir_count_def)

lemma fs_find_Some: "fs_find d n = Some i \<Longrightarrow> i < MAX_FILES \<and> used (d ! i) \<noteq> 0 \<and> name (d ! i) = n"
  by (auto simp: fs_find_def find_Some_iff g_dir_count_def)

lemma free_slot_None: "free_slot d = None \<longleftrightarrow> (\<forall>i<MAX_FILES. used (d ! i) \<noteq> 0)"
  by (auto simp: free_slot_def find_None_iff g_dir_count_def)

lemma free_slot_Some:
  "free_slot d = Some i \<longleftrightarrow> i < MAX_FILES \<and> used (d ! i) = 0 \<and> (\<forall>j<i. used (d ! j) \<noteq> 0)"
  by (auto simp: free_slot_def find_Some_iff g_dir_count_def)

lemma copy_bounded_fits: "length n < MAX_NAME \<Longrightarrow> copy_bounded dst (Some n) (int MAX_NAME) = n"
  by (simp add: copy_bounded_def MAX_NAME_def)

lemma cmd_create_cases:
  assumes "cmd_create ext a b s = (out, s')"
  shows "(g_dir s' = g_dir s \<and> out \<noteq> ''OK'' @ [CHR 0x0A]) \<or>
     (\<exists>n sz slot dat ph. a = Some n \<and> b = Some sz \<and> n \<noteq> [] \<and> sz \<noteq> [] \<and> length n < MAX_NAME
        \<and> fs_find (g_dir s) n = None \<and> parse_uint sz \<noteq> 0 \<and> free_slot (g_dir s) = Some slot
        \<and> dat \<noteq> 0
        \<and> kmalloc ext (round_up_page (parse_uint sz)) 1 (heap s) = (dat, ph, heap s')
        \<and> g_dir s' = (g_dir s)[slot := \<lparr>name = n, size_req = parse_uint sz,
              alloc_bytes = round_up_page (parse_uint sz), data = dat, phys = ph, used = 1\<rparr>]
        \<and> halted s' = halted s
        \<and> out = ''OK'' @ [CHR 0x0A])"
  using assms
  by (auto simp: cmd_create_def Let_def copy_bounded_fits split: option.splits if_splits prod.splits)

lemma cmd_rename_cases:
  assumes "cmd_rename a b s = (out, s')"
  shows "(s' = s \<and> out \<noteq> ''OK'' @ [CHR 0x0A]) \<or>
     (\<exists>old new idx. a = Some old \<and> b = Some new \<and> old \<noteq> [] \<and> new \<noteq> [] \<and> length new < MAX_NAME
        \<and> fs_find (g_dir s) old = Some idx \<and> fs_find (g_dir s) new = None
        \<and> s' = s\<lparr>g_dir := (g_dir s)[idx := (g_dir s ! idx)\<lparr>name := new\<rparr>]\<rparr>
        \<and> out = ''OK'' @ [CHR 0x0A])"
  using assms
  by (auto simp: cmd_rename_def Let_def copy_bounded_fits split: option.splits if_splits prod.splits)

lemma cmd_del_cases:
  assumes "cmd_del a s = (out, s')"
  shows "(s' = s \<and> out \<noteq> ''OK'' @ [CHR 0x0A]) \<or>
     (\<exists>n idx. a = Some n \<and> n \<noteq> [] \<and> fs_find (g_dir s) n = Some idx
        \<and> s' = s\<lparr>g_dir := (g_dir s)[idx := blank_entry]\<rparr>
        \<and> out = ''OK'' @ [CHR 0x0A])"
  using assms
  by (auto simp: cmd_del_def blank_entry_def split: option.splits if_splits)

lemma upper_char_idem: "upper_char (upper_char c) = upper_char c"
  by (auto simp: upper_char_def Let_def)

lemma to_upper_idem: "to_upper_inplace (to_upper_inplace s) = to_upper_inplace s"
  by (simp add: to_upper_inplace_def upper_char_idem)

lemma user_input_dir_cases:
  assumes "user_input ext line s = (out, s')"
  shows "g_dir s' = g_dir s
    \<or> (\<exists>a b out1. cmd_create ext a b s = (out1, s') \<and> parse_line (to_upper_inplace line) = Some (''CREATE'', a, b))
    \<or> (\<exists>a b out1. cmd_rename a b s = (out1, s') \<and> parse_line (to_upper_inplace line) = Some (''RENAME'', a, b))
    \<or> (\<exists>a b out1. cmd_del a s = (out1, s') \<and> parse_line (to_upper_inplace line) = Some (''DEL'', a, b))"
  using assms
  by (auto simp: user_input_def dispatch_def cmd_list_def Let_def split: if_splits option.splits prod.splits)

lemma fs_init_len: "length (g_dir (snd (fs_init ext raw h))) = MAX_FILES"
  by (simp add: fs_init_def split: prod.splits)

lemma user_input_len:
  assumes "user_input ext line s = (out, s')"
  shows "length (g_dir s') = length (g_dir s)"
  using user_input_dir_cases[OF assms]
  by (auto dest!: cmd_create_cases cmd_rename_cases cmd_del_cases)

lemma reachable_len: "reachable ext s \<Longrightarrow> length (g_dir s) = MAX_FILES"
proof (induction rule: reachable.induct)
  case (reach_init raw h)
  show ?case by (rule fs_init_len)
next
  case (reach_step s line)
  then show ?case using user_input_len[of ext line s] by (metis prod.collapse)
qed

lemma reachable_shell: "reachable ext s \<Longrightarrow> reachable ext (snd (shell ext ls s))"
proof (induction ls arbitrary: s)
  case Nil
  then show ?case by simp
next
  case (Cons l ls)
  show ?case
  proof (cases "halted s")
    case True
    then show ?thesis using Cons.prems by simp
  next
    case False
    have "reachable ext (snd (shell ext ls (snd (user_input ext l s))))"
      by (rule Cons.IH) (rule reach_step[OF Cons.prems])
    then show ?thesis using False by (auto split: prod.splits)
  qed
qed

lemma fs_init_used: "i < MAX_FILES \<Longrightarrow> used (g_dir (snd (fs_init ext raw h)) ! i) = 0"
  by (simp add: fs_init_def split: prod.splits)

lemma cmd_create_unique:
  assumes "cmd_create ext a b s = (out, s')" "names_unique (g_dir s)" "length (g_dir s) = MAX_FILES"
  shows "names_unique (g_dir s')"
  using cmd_create_cases[OF assms(1)]
proof (elim disjE exE conjE)
  assume "g_dir s' = g_dir s"
  then show ?thesis using assms(2) by simp
next
  fix n sz slot dat ph
  assume h: "fs_find (g_dir s) n = None" "free_slot (g_dir s) = Some slot"
    "g_dir s' = (g_dir s)[slot := \<lparr>name = n, size_req = parse_uint sz,
              alloc_bytes = round_up_page (parse_uint sz), data = dat, phys = ph, used = 1\<rparr>]"
  have sl: "slot < MAX_FILES" using h(2) by (simp add: free_slot_Some)
  show ?thesis
    unfolding names_unique_def
  proof (intro allI impI)
    fix i j
    assume ij: "i < MAX_FILES" "j < MAX_FILES"
      "used (g_dir s' ! i) \<noteq> 0 \<and> used (g_dir s' ! j) \<noteq> 0 \<and> name (g_dir s' ! i) = name (g_dir s' ! j)"
    show "i = j"
    proof (cases "i = slot"; cases "j = slot")
      assume "i = slot" "j = slot" then show ?thesis by simp
    next
      assume c: "i = slot" "j \<noteq> slot"
      then have "name (g_dir s ! j) = n" "used (g_dir s ! j) \<noteq> 0"
        using ij h(3) assms(3) by auto
      then show ?thesis using h(1) ij(2) by (auto simp: fs_find_None)
    next
      assume c: "i \<noteq> slot" "j = slot"
      then have "name (g_dir s ! i) = n" "used (g_dir s ! i) \<noteq> 0"
        using ij h(3) assms(3) by auto
      then show ?thesis using h(1) ij(1) by (auto simp: fs_find_None)
    next
      assume c: "i \<noteq> slot" "j \<noteq> slot"
      then show ?thesis using ij h(3) assms(2) by (auto simp: names_unique_def)
    qed
  qed
qed

lemma cmd_rename_unique:
  assumes "cmd_rename a b s = (out, s')" "names_unique (g_dir s)" "length (g_dir s) = MAX_FILES"
  shows "names_unique (g_dir s')"
  using cmd_rename_cases[OF assms(1)]
proof (elim disjE exE conjE)
  assume "s' = s"
  then show ?thesis using assms(2) by simp
next
  fix old new idx
  assume h: "fs_find (g_dir s) old = Some idx" "fs_find (g_dir s) new = None"
    "s' = s\<lparr>g_dir := (g_dir s)[idx := (g_dir s ! idx)\<lparr>name := new\<rparr>]\<rparr>"
  have sl: "idx < MAX_FILES" using h(1) by (auto dest: fs_find_Some)
  show ?thesis
    unfolding names_unique_def
  proof (intro allI impI)
    fix i j
    assume ij: "i < MAX_FILES" "j < MAX_FILES"
      "used (g_dir s' ! i) \<noteq> 0 \<and> used (g_dir s' ! j) \<noteq> 0 \<and> name (g_dir s' ! i) = name (g_dir s' ! j)"
    show "i = j"
    proof (cases "i = idx"; cases "j = idx")
      assume "i = idx" "j = idx" then show ?thesis by simp
    next
      assume c: "i = idx" "j \<noteq> idx"
      then have "name (g_dir s ! j) = new" "used (g_dir s ! j) \<noteq> 0"
        using ij h(3) assms(3) sl by auto
      then show ?thesis using h(2) ij(2) by (auto simp: fs_find_None)
    next
      assume c: "i \<noteq> idx" "j = idx"
      then have "name (g_dir s ! i) = new" "used (g_dir s ! i) \<noteq> 0"
        using ij h(3) assms(3) sl by auto
      then show ?thesis using h(2) ij(1) by (auto simp: fs_find_None)
    next
      assume c: "i \<noteq> idx" "j \<noteq> idx"
      then show ?thesis using ij h(3) assms(2) by (auto simp: names_unique_def)
    qed
  qed
qed

lemma cmd_del_unique:
  assumes "cmd_del a s = (out, s')" "names_unique (g_dir s)" "length (g_dir s) = MAX_FILES"
  shows "names_unique (g_dir s')"
  using cmd_del_cases[OF assms(1)]
proof (elim disjE exE conjE)
  assume "s' = s"
  then show ?thesis using assms(2) by simp
next
  fix n idx
  assume h: "fs_find (g_dir s) n = Some idx" "s' = s\<lparr>g_dir := (g_dir s)[idx := blank_entry]\<rparr>"
  have sl: "idx < MAX_FILES" using h(1) by (auto dest: fs_find_Some)
  show ?thesis
    unfolding names_unique_def
  proof (intro allI impI)
    fix i j
    assume ij: "i < MAX_FILES" "j < MAX_FILES"
      "used (g_dir s' ! i) \<noteq> 0 \<and> used (g_dir s' ! j) \<noteq> 0 \<and> name (g_dir s' ! i) = name (g_dir s' ! j)"
    have "i \<noteq> idx" "j \<noteq> idx"
      using ij h(2) assms(3) sl by (auto simp: blank_entry_def)
    then show "i = j" using ij h(2) assms(2) by (auto simp: names_unique_def)
  qed
qed

lemma user_input_unique:
  assumes "user_input ext line s = (out, s')" "names_unique (g_dir s)" "length (g_dir s) = MAX_FILES"
  shows "names_unique (g_dir s')"
  using user_input_dir_cases[OF assms(1)] assms(2,3)
  by (auto intro: cmd_create_unique cmd_rename_unique cmd_del_unique)

lemma reachable_unique: "reachable ext s \<Longrightarrow> names_unique (g_dir s)"
proof (induction rule: reachable.induct)
  case (reach_init raw h)
  show ?case by (simp add: names_unique_def fs_init_used)
next
  case (reach_step s line)
  show ?case
    by (rule user_input_unique[OF _ reach_step.IH reachable_len[OF reach_step.hyps]])
       (rule prod.collapse[symmetric])
qed

lemma upper_char_no_lower:
  "\<not> (97 \<le> (of_char (upper_char c) :: nat) \<and> (of_char (upper_char c) :: nat) \<le> 122)"
  by (auto simp: upper_char_def Let_def)

lemma to_upper_no_lower: "no_lowercase (to_upper_inplace t)"
  unfolding no_lowercase_def to_upper_inplace_def list_all_iff
  using upper_char_no_lower by auto

lemma no_lowercase_subset: "no_lowercase t \<Longrightarrow> set u \<subseteq> set t \<Longrightarrow> no_lowercase u"
  by (auto simp: no_lowercase_def list_all_iff)

lemma next_token_set: "next_token p = Some r \<Longrightarrow> \<exists>t. p = Some t \<and> set r \<subseteq> set t"
  by (cases p) (auto simp: Let_def split: if_splits dest: set_dropWhileD)

lemma cut_token_set:
  "cut_token p = (tok, rest) \<Longrightarrow> set tok \<subseteq> set p \<and> (\<forall>r. rest = Some r \<longrightarrow> set r \<subseteq> set p)"
  by (auto simp: cut_token_def Let_def split: if_splits dest: set_takeWhileD set_dropWhileD list.set_sel(2)[rotated])

lemma parse_line_set:
  assumes "parse_line inp = Some (c, a, b)"
  shows "set c \<subseteq> set inp \<and> (\<forall>x. a = Some x \<longrightarrow> set x \<subseteq> set inp)
     \<and> (\<forall>y. b = Some y \<longrightarrow> set y \<subseteq> set inp)"
proof -
  obtain cmd where cmd: "next_token (Some inp) = Some cmd"
    using assms by (auto simp: parse_line_def split: option.splits)
  have s0: "set cmd \<subseteq> set inp" using next_token_set[OF cmd] by auto
  obtain ct p where ct: "cut_token cmd = (ct, p)" by (cases "cut_token cmd")
  have s1: "set ct \<subseteq> set inp" "\<forall>r. p = Some r \<longrightarrow> set r \<subseteq> set inp"
    using cut_token_set[OF ct] s0 by auto
  show ?thesis
  proof (cases "next_token p")
    case None
    then show ?thesis using assms cmd ct s1 by (auto simp: parse_line_def)
  next
    case (Some arg1)
    have s2: "set arg1 \<subseteq> set inp" using next_token_set[OF Some] s1(2) by auto
    obtain at p' where at: "cut_token arg1 = (at, p')" by (cases "cut_token arg1")
    have s3: "set at \<subseteq> set inp" "\<forall>r. p' = Some r \<longrightarrow> set r \<subseteq> set inp"
      using cut_token_set[OF at] s2 by auto
    have "\<forall>y. next_token p' = Some y \<longrightarrow> set y \<subseteq> set inp"
    proof (intro allI impI)
      fix y assume "next_token p' = Some y"
      from next_token_set[OF this] s3(2) show "set y \<subseteq> set inp" by auto
    qed
    then show ?thesis using assms cmd ct Some at s1 s3 by (auto simp: parse_line_def)
  qed
qed

lemma parse_line_upper:
  assumes "parse_line (to_upper_inplace line) = Some (c, a, b)"
  shows "(\<forall>x. a = Some x \<longrightarrow> no_lowercase x) \<and> (\<forall>y. b = Some y \<longrightarrow> no_lowercase y)"
proof (intro conjI allI impI)
  fix x assume "a = Some x"
  then have "set x \<subseteq> set (to_upper_inplace line)" using parse_line_set[OF assms] by simp
  then show "no_lowercase x" by (rule no_lowercase_subset[OF to_upper_no_lower])
next
  fix y assume "b = Some y"
  then have "set y \<subseteq> set (to_upper_inplace line)" using parse_line_set[OF assms] by simp
  then show "no_lowercase y" by (rule no_lowercase_subset[OF to_upper_no_lower])
qed

lemma user_input_upper:
  assumes "user_input ext line s = (out, s')" "names_upper (g_dir s)" "length (g_dir s) = MAX_FILES"
  shows "names_upper (g_dir s')"
  using user_input_dir_cases[OF assms(1)]
proof (elim disjE exE conjE)
  assume "g_dir s' = g_dir s"
  then show ?thesis using assms(2) by simp
next
  fix a b out1
  assume c: "cmd_create ext a b s = (out1, s')"
    and p: "parse_line (to_upper_inplace line) = Some (''CREATE'', a, b)"
  show ?thesis
    using cmd_create_cases[OF c]
  proof (elim disjE exE conjE)
    assume "g_dir s' = g_dir s"
    then show ?thesis using assms(2) by simp
  next
    fix n sz slot dat ph
    assume h: "a = Some n" "free_slot (g_dir s) = Some slot"
      "g_dir s' = (g_dir s)[slot := \<lparr>name = n, size_req = parse_uint sz,
              alloc_bytes = round_up_page (parse_uint sz), data = dat, phys = ph, used = 1\<rparr>]"
    have sl: "slot < MAX_FILES" using h(2) by (simp add: free_slot_Some)
    have nl: "no_lowercase n" using parse_line_upper[OF p] h(1) by simp
    show ?thesis
      using assms(2,3) sl nl h(3)
      by (auto simp: names_upper_def nth_list_update)
  qed
next
  fix a b out1
  assume c: "cmd_rename a b s = (out1, s')"
    and p: "parse_line (to_upper_inplace line) = Some (''RENAME'', a, b)"
  show ?thesis
    using cmd_rename_cases[OF c]
  proof (elim disjE exE conjE)
    assume "s' = s"
    then show ?thesis using assms(2) by simp
  next
    fix old new idx
    assume h: "b = Some new" "fs_find (g_dir s) old = Some idx"
      "s' = s\<lparr>g_dir := (g_dir s)[idx := (g_dir s ! idx)\<lparr>name := new\<rparr>]\<rparr>"
    have sl: "idx < MAX_FILES" using fs_find_Some[OF h(2)] by simp
    have nl: "no_lowercase new" using parse_line_upper[OF p] h(1) by simp
    show ?thesis
      using assms(2,3) sl nl h(3)
      by (auto simp: names_upper_def nth_list_update)
  qed
next
  fix a b out1
  assume c: "cmd_del a s = (out1, s')"
  show ?thesis
    using cmd_del_cases[OF c]
  proof (elim disjE exE conjE)
    assume "s' = s"
    then show ?thesis using assms(2) by simp
  next
    fix n idx
    assume h: "fs_find (g_dir s) n = Some idx" "s' = s\<lparr>g_dir := (g_dir s)[idx := blank_entry]\<rparr>"
    have sl: "idx < MAX_FILES" using fs_find_Some[OF h(1)] by simp
    show ?thesis
      using assms(2,3) sl h(2)
      by (auto simp: names_upper_def nth_list_update blank_entry_def)
  qed
qed

lemma reachable_upper: "reachable ext s \<Longrightarrow> names_upper (g_dir s)"
proof (induction rule: reachable.induct)
  case (reach_init raw h)
  show ?case by (simp add: names_upper_def fs_init_used)
next
  case (reach_step s line)
  show ?case
    by (rule user_input_upper[OF _ reach_step.IH reachable_len[OF reach_step.hyps]])
       (rule prod.collapse[symmetric])
qed

lemma user_input_upper_line: "user_input ext (to_upper_inplace line) s = user_input ext line s"
  by (simp add: user_input_def to_upper_idem)

lemma demo_boot_reachable: "reachable demo_ext demo_boot"
  unfolding demo_boot_def by (rule reach_init)

lemma user_input_out_cases:
  assumes "user_input ext line s = (out, s')"
  shows "g_dir s' = g_dir s
    \<or> (\<exists>a b out1. cmd_create ext a b s = (out1, s') \<and> out = out1 @ ''> '')
    \<or> (\<exists>a b out1. cmd_rename a b s = (out1, s') \<and> out = out1 @ ''> '')
    \<or> (\<exists>a out1. cmd_del a s = (out1, s') \<and> out = out1 @ ''> '')"
  using assms
  by (auto simp: user_input_def dispatch_def cmd_list_def Let_def split: if_splits option.splits prod.splits)

lemma user_input_changes_dir:
  assumes "user_input ext line s = (out, s')" "g_dir s' \<noteq> g_dir s"
  shows "out = ''OK'' @ [CHR 0x0A] @ ''> ''"
  using user_input_out_cases[OF assms(1)] assms(2)
  by (auto dest!: cmd_create_cases cmd_rename_cases cmd_del_cases)

lemma ok_is_no_error: "\<not> reports_error (''OK'' @ [CHR 0x0A] @ ''> '')"
  by (simp add: reports_error_def)

lemma shell_halted: "halted s \<Longrightarrow> shell ext ls s = ([], s)"
  by (cases ls) simp_all

lemma demo_two_reachable: "reachable demo_ext demo_two"
  unfolding demo_two_def by (rule reachable_shell[OF demo_boot_reachable])

text \<open>
  C2.  Whenever the text printed for a line contains a usage message or an \<open>ERR:\<close> line,
  the directory table after the line is the table before it, slot by slot and field by
  field.  (A failing command performs no store into the table at all.)
\<close>

theorem failed_command_keeps_directory:
  assumes "user_input ext line s = (out, s')" and "reports_error out"
  shows "g_dir s' = g_dir s"
proof (rule ccontr)
  assume "g_dir s' \<noteq> g_dir s"
  then have "out = ''OK'' @ [CHR 0x0A] @ ''> ''"
    by (rule user_input_changes_dir[OF assms(1)])
  then show False using assms(2) ok_is_no_error by simp
qed

theorem failed_command_keeps_directory_witness:
  "fst (user_input demo_ext ''rename foo bar'' demo_two) = ''ERR: exists'' @ [CHR 0x0A] @ ''> ''
   \<and> reports_error (fst (user_input demo_ext ''rename foo bar'' demo_two))
   \<and> g_dir (snd (user_input demo_ext ''rename foo bar'' demo_two)) = g_dir demo_two"
proof -
  have out: "fst (user_input demo_ext ''rename foo bar'' demo_two)
      = ''ERR: exists'' @ [CHR 0x0A] @ ''> ''"
    by code_simp
  have err: "reports_error (fst (user_input demo_ext ''rename foo bar'' demo_two))"
    unfolding out by code_simp
  show ?thesis
    using failed_command_keeps_directory[OF prod.collapse[symmetric] err] out err by simp
qed

text \<open>
  C7.  A line and its uppercased form are processed identically (same printed text, same
  resulting state), for every line and state; and in every reachable state the name of
  every used slot is free of lowercase letters.
\<close>

theorem case_normalisation:
  "user_input ext line s = user_input ext (to_upper_inplace line) s
   \<and> (reachable ext s \<longrightarrow>
        (\<forall>i<MAX_FILES. used (g_dir s ! i) \<noteq> 0 \<longrightarrow> no_lowercase (name (g_dir s ! i))))"
  using reachable_upper[of ext s]
  by (simp add: user_input_upper_line names_upper_def)

theorem case_normalisation_witness:
  "to_upper_inplace ''create foo 10'' = ''CREATE FOO 10''
   \<and> user_input demo_ext ''create foo 10'' demo_boot
       = user_input demo_ext ''CREATE FOO 10'' demo_boot
   \<and> reachable demo_ext demo_two
   \<and> used (g_dir demo_two ! 1) \<noteq> 0
   \<and> name (g_dir demo_two ! 1) = ''BAR''
   \<and> no_lowercase (name (g_dir demo_two ! 1))"
proof -
  have up: "to_upper_inplace ''create foo 10'' = ''CREATE FOO 10''" by code_simp
  have u: "used (g_dir demo_two ! 1) \<noteq> 0" by code_simp
  have n: "name (g_dir demo_two ! 1) = ''BAR''" by code_simp
  have one: "(1::nat) < MAX_FILES" by (simp add: MAX_FILES_def)
  have inv: "no_lowercase (name (g_dir demo_two ! 1))"
    using case_normalisation[of demo_ext "''create foo 10''" demo_two] demo_two_reachable one u
    by blast
  have same: "user_input demo_ext ''create foo 10'' demo_boot
       = user_input demo_ext ''CREATE FOO 10'' demo_boot"
    using case_normalisation[of demo_ext "''create foo 10''" demo_boot] up by simp
  show ?thesis
    using inv same demo_two_reachable up u n by simp
qed

text \<open>
  C8.  In every reachable state two different slots that are both in use carry different
  names.
\<close>

theorem active_names_distinct:
  assumes "reachable ext s" and "i < MAX_FILES" and "j < MAX_FILES" and "i \<noteq> j"
    and "used (g_dir s ! i) \<noteq> 0" and "used (g_dir s ! j) \<noteq> 0"
  shows "name (g_dir s ! i) \<noteq> name (g_dir s ! j)"
  using reachable_unique[OF assms(1)] assms(2-6)
  by (auto simp: names_unique_def)

theorem active_names_distinct_witness:
  "reachable demo_ext demo_two \<and> (0::nat) < MAX_FILES \<and> (1::nat) < MAX_FILES
   \<and> used (g_dir demo_two ! 0) = 1 \<and> used (g_dir demo_two ! 1) = 1
   \<and> name (g_dir demo_two ! 0) \<noteq> name (g_dir demo_two ! 1)"
proof -
  have u0: "used (g_dir demo_two ! 0) = 1" by code_simp
  have u1: "used (g_dir demo_two ! 1) = 1" by code_simp
  have b: "(0::nat) < MAX_FILES" "(1::nat) < MAX_FILES" by (simp_all add: MAX_FILES_def)
  show ?thesis
    using active_names_distinct[OF demo_two_reachable b, of ] u0 u1 b demo_two_reachable
    by simp
qed

text \<open>
  C9.  A line whose uppercased form is \<open>END\<close> prints the farewell message and leaves the
  state halted; the line loop then hands over no further line: whatever lines follow, the
  run prints nothing more and the state stays as it is.
\<close>

theorem end_halts:
  assumes "to_upper_inplace line = ''END''" and "\<not> halted s"
  shows "user_input ext line s = (''Stopping the CPU. Bye!'' @ [CHR 0x0A], s\<lparr>halted := True\<rparr>)
    \<and> shell ext (line # rest) s = (''Stopping the CPU. Bye!'' @ [CHR 0x0A], s\<lparr>halted := True\<rparr>)
    \<and> shell ext rest (s\<lparr>halted := True\<rparr>) = ([], s\<lparr>halted := True\<rparr>)"
proof -
  have u: "user_input ext line s = (''Stopping the CPU. Bye!'' @ [CHR 0x0A], s\<lparr>halted := True\<rparr>)"
    using assms(1) by (simp add: user_input_def)
  have h: "shell ext rest (s\<lparr>halted := True\<rparr>) = ([], s\<lparr>halted := True\<rparr>)"
    by (rule shell_halted) simp
  show ?thesis using u h assms(2) by simp
qed

theorem end_halts_witness:
  "to_upper_inplace ''end'' = ''END'' \<and> \<not> halted demo_two
   \<and> shell demo_ext [''end'', ''del foo'', ''list''] demo_two
       = (''Stopping the CPU. Bye!'' @ [CHR 0x0A], demo_two\<lparr>halted := True\<rparr>)"
proof -
  have a: "to_upper_inplace ''end'' = ''END''" by code_simp
  have b: "\<not> halted demo_two" by code_simp
  show ?thesis
    using end_halts[OF a b, of demo_ext "[''del foo'', ''list'']"] a b by simp
qed

lemma cmd_create_ok:
  assumes "nm \<noteq> []" "sz \<noteq> []" "length nm < MAX_NAME" "fs_find (g_dir s) nm = None"
    "parse_uint sz \<noteq> 0" "free_slot (g_dir s) = Some slot"
    "fst (kmalloc ext (round_up_page (parse_uint sz)) 1 (heap s)) \<noteq> 0"
  shows "fst (cmd_create ext (Some nm) (Some sz) s) = ''OK'' @ [CHR 0x0A]"
  using assms
  by (auto simp: cmd_create_def Let_def split: prod.splits)

lemma cmd_create_full:
  assumes "nm \<noteq> []" "sz \<noteq> []" "length nm < MAX_NAME" "fs_find (g_dir s) nm = None"
    "parse_uint sz \<noteq> 0" "free_slot (g_dir s) = None"
  shows "cmd_create ext (Some nm) (Some sz) s = (''ERR: directory full'' @ [CHR 0x0A], s)"
  using assms
  by (simp add: cmd_create_def Let_def)

lemma free_slot_exists:
  assumes "i < MAX_FILES" "used (d ! i) = 0"
  shows "\<exists>slot. free_slot d = Some slot"
proof (cases "free_slot d")
  case None
  then show ?thesis using assms by (simp add: free_slot_None)
next
  case (Some a)
  then show ?thesis by simp
qed

lemma cmd_create_lowest:
  assumes "cmd_create ext a b s = (''OK'' @ [CHR 0x0A], s')" "length (g_dir s) = MAX_FILES"
  shows "\<exists>slot<MAX_FILES. used (g_dir s ! slot) = 0 \<and> (\<forall>j < slot. used (g_dir s ! j) \<noteq> 0)
            \<and> used (g_dir s' ! slot) = 1 \<and> a = Some (name (g_dir s' ! slot))
            \<and> (\<forall>j<MAX_FILES. j \<noteq> slot \<longrightarrow> g_dir s' ! j = g_dir s ! j)"
  using cmd_create_cases[OF assms(1)]
proof (elim disjE exE conjE)
  assume "''OK'' @ [CHR 0x0A] \<noteq> ''OK'' @ [CHR 0x0A]"
  then show ?thesis by simp
next
  fix n sz slot dat ph
  assume h: "a = Some n" "free_slot (g_dir s) = Some slot"
    "g_dir s' = (g_dir s)[slot := \<lparr>name = n, size_req = parse_uint sz,
              alloc_bytes = round_up_page (parse_uint sz), data = dat, phys = ph, used = 1\<rparr>]"
  have sl: "slot < MAX_FILES" "used (g_dir s ! slot) = 0" "\<forall>j < slot. used (g_dir s ! j) \<noteq> 0"
    using h(2) by (simp_all add: free_slot_Some)
  have "used (g_dir s' ! slot) = 1" "a = Some (name (g_dir s' ! slot))"
      "\<forall>j<MAX_FILES. j \<noteq> slot \<longrightarrow> g_dir s' ! j = g_dir s ! j"
    using h(1,3) sl(1) assms(2) by simp_all
  then show ?thesis using sl by blast
qed

lemma cmd_del_frees:
  assumes "fst (cmd_del (Some n) s) = ''OK'' @ [CHR 0x0A]" "length (g_dir s) = MAX_FILES"
  shows "\<exists>i<MAX_FILES. used (g_dir (snd (cmd_del (Some n) s)) ! i) = 0"
proof -
  obtain out s1 where c: "cmd_del (Some n) s = (out, s1)" by (cases "cmd_del (Some n) s")
  then have o: "out = ''OK'' @ [CHR 0x0A]" using assms(1) by simp
  from cmd_del_cases[OF c] o obtain idx where
    h: "fs_find (g_dir s) n = Some idx" "s1 = s\<lparr>g_dir := (g_dir s)[idx := blank_entry]\<rparr>"
    by auto
  have sl: "idx < MAX_FILES" using fs_find_Some[OF h(1)] by simp
  then have "used (g_dir s1 ! idx) = 0" using h(2) assms(2) by (simp add: blank_entry_def)
  then show ?thesis using sl c by auto
qed

text \<open>
  C3.  In every reachable state the table has 16 slots, so at most 16 records are active.
  A \<open>CREATE\<close> that passes the checks on its arguments fails with "directory full" and
  changes nothing when every slot is in use.  A \<open>CREATE\<close> that prints \<open>OK\<close> has filled the
  free slot of lowest index and no other slot.  After a \<open>DEL\<close> that prints \<open>OK\<close>, a
  \<open>CREATE\<close> that passes the checks on its arguments and whose allocation succeeds
  prints \<open>OK\<close>.
\<close>

theorem directory_capacity:
  assumes "reachable ext s"
  shows "length (filter (\<lambda>e. used e \<noteq> 0) (g_dir s)) \<le> 16
    \<and> (nm \<noteq> [] \<and> sz \<noteq> [] \<and> length nm < MAX_NAME \<and> fs_find (g_dir s) nm = None
         \<and> parse_uint sz \<noteq> 0 \<and> (\<forall>i<MAX_FILES. used (g_dir s ! i) \<noteq> 0)
       \<longrightarrow> cmd_create ext (Some nm) (Some sz) s = (''ERR: directory full'' @ [CHR 0x0A], s))
    \<and> (cmd_create ext a b s = (''OK'' @ [CHR 0x0A], s')
       \<longrightarrow> (\<exists>slot<MAX_FILES. used (g_dir s ! slot) = 0 \<and> (\<forall>j < slot. used (g_dir s ! j) \<noteq> 0)
              \<and> used (g_dir s' ! slot) = 1 \<and> a = Some (name (g_dir s' ! slot))
              \<and> (\<forall>j<MAX_FILES. j \<noteq> slot \<longrightarrow> g_dir s' ! j = g_dir s ! j)))
    \<and> (fst (cmd_del (Some n) s) = ''OK'' @ [CHR 0x0A] \<and> s1 = snd (cmd_del (Some n) s)
         \<and> nm \<noteq> [] \<and> sz \<noteq> [] \<and> length nm < MAX_NAME \<and> fs_find (g_dir s1) nm = None
         \<and> parse_uint sz \<noteq> 0
         \<and> fst (kmalloc ext (round_up_page (parse_uint sz)) 1 (heap s1)) \<noteq> 0
       \<longrightarrow> fst (cmd_create ext (Some nm) (Some sz) s1) = ''OK'' @ [CHR 0x0A])"
proof -
  have len: "length (g_dir s) = MAX_FILES" by (rule reachable_len[OF assms])
  have "length (filter (\<lambda>e. used e \<noteq> 0) (g_dir s)) \<le> length (g_dir s)"
    by (rule length_filter_le)
  then have p1: "length (filter (\<lambda>e. used e \<noteq> 0) (g_dir s)) \<le> 16"
    using len by (simp add: MAX_FILES_def)
  have p2: "nm \<noteq> [] \<and> sz \<noteq> [] \<and> length nm < MAX_NAME \<and> fs_find (g_dir s) nm = None
         \<and> parse_uint sz \<noteq> 0 \<and> (\<forall>i<MAX_FILES. used (g_dir s ! i) \<noteq> 0)
       \<longrightarrow> cmd_create ext (Some nm) (Some sz) s = (''ERR: directory full'' @ [CHR 0x0A], s)"
    using cmd_create_full[of nm sz s ext] by (simp add: free_slot_None)
  have p3: "cmd_create ext a b s = (''OK'' @ [CHR 0x0A], s')
       \<longrightarrow> (\<exists>slot<MAX_FILES. used (g_dir s ! slot) = 0 \<and> (\<forall>j < slot. used (g_dir s ! j) \<noteq> 0)
              \<and> used (g_dir s' ! slot) = 1 \<and> a = Some (name (g_dir s' ! slot))
              \<and> (\<forall>j<MAX_FILES. j \<noteq> slot \<longrightarrow> g_dir s' ! j = g_dir s ! j))"
    using cmd_create_lowest[OF _ len] by blast
  have p4: "fst (cmd_del (Some n) s) = ''OK'' @ [CHR 0x0A] \<and> s1 = snd (cmd_del (Some n) s)
         \<and> nm \<noteq> [] \<and> sz \<noteq> [] \<and> length nm < MAX_NAME \<and> fs_find (g_dir s1) nm = None
         \<and> parse_uint sz \<noteq> 0
         \<and> fst (kmalloc ext (round_up_page (parse_uint sz)) 1 (heap s1)) \<noteq> 0
       \<longrightarrow> fst (cmd_create ext (Some nm) (Some sz) s1) = ''OK'' @ [CHR 0x0A]"
  proof (intro impI, elim conjE)
    assume d: "fst (cmd_del (Some n) s) = ''OK'' @ [CHR 0x0A]" "s1 = snd (cmd_del (Some n) s)"
      and v: "nm \<noteq> []" "sz \<noteq> []" "length nm < MAX_NAME" "fs_find (g_dir s1) nm = None"
        "parse_uint sz \<noteq> 0" "fst (kmalloc ext (round_up_page (parse_uint sz)) 1 (heap s1)) \<noteq> 0"
    from cmd_del_frees[OF d(1) len] d(2) obtain i where "i < MAX_FILES" "used (g_dir s1 ! i) = 0"
      by auto
    then obtain slot where "free_slot (g_dir s1) = Some slot"
      using free_slot_exists by blast
    then show "fst (cmd_create ext (Some nm) (Some sz) s1) = ''OK'' @ [CHR 0x0A]"
      using v cmd_create_ok[of nm sz s1 slot ext] by simp
  qed
  show ?thesis using p1 p2 p3 p4 by blast
qed

lemma demo_full_reachable: "reachable demo_ext demo_full"
  unfolding demo_full_def by (rule reachable_shell[OF demo_boot_reachable])

theorem directory_capacity_witness:
  "reachable demo_ext demo_full
   \<and> list_all (\<lambda>e. used e \<noteq> 0) (g_dir demo_full)
   \<and> cmd_create demo_ext (Some ''Q'') (Some ''5'') demo_full
       = (''ERR: directory full'' @ [CHR 0x0A], demo_full)
   \<and> fst (cmd_del (Some ''F3'') demo_full) = ''OK'' @ [CHR 0x0A]
   \<and> fst (cmd_create demo_ext (Some ''Q'') (Some ''5'') demo_del) = ''OK'' @ [CHR 0x0A]"
proof -
  have full: "\<forall>i<MAX_FILES. used (g_dir demo_full ! i) \<noteq> 0"
    unfolding MAX_FILES_def by code_simp
  have v: "''Q'' \<noteq> []" "''5'' \<noteq> []" "length ''Q'' < MAX_NAME" "parse_uint ''5'' \<noteq> 0"
    by (simp_all add: MAX_NAME_def parse_uint_def is_space_def is_digit_def)
  have f: "fs_find (g_dir demo_full) ''Q'' = None" by code_simp
  have d: "fst (cmd_del (Some ''F3'') demo_full) = ''OK'' @ [CHR 0x0A]" by code_simp
  have f1: "fs_find (g_dir demo_del) ''Q'' = None" by code_simp
  have k: "fst (kmalloc demo_ext (round_up_page (parse_uint ''5'')) 1 (heap demo_del)) \<noteq> 0"
    by code_simp
  note t = directory_capacity[OF demo_full_reachable, of "''Q''" "''5''" None None demo_full
      "''F3''" demo_del]
  have a: "cmd_create demo_ext (Some ''Q'') (Some ''5'') demo_full
       = (''ERR: directory full'' @ [CHR 0x0A], demo_full)"
    using t v f full by blast
  have b: "fst (cmd_create demo_ext (Some ''Q'') (Some ''5'') demo_del) = ''OK'' @ [CHR 0x0A]"
    using t v f1 d k demo_del_def by blast
  have la: "list_all (\<lambda>e. used e \<noteq> 0) (g_dir demo_full)" by code_simp
  show ?thesis using demo_full_reachable la a d b by blast
qed

lemma parse_uint_zero_text: "parse_uint ''0'' = 0"
  by (simp add: parse_uint_def is_space_def is_digit_def)

lemma parse_uint_no_digit:
  assumes "case dropWhile is_space sz of [] \<Rightarrow> True | c # cs \<Rightarrow> \<not> is_digit c"
  shows "parse_uint sz = 0"
proof (cases "dropWhile is_space sz")
  case Nil
  show ?thesis unfolding parse_uint_def Nil by simp
next
  case (Cons c cs)
  then have "\<not> is_digit c" using assms by simp
  then show ?thesis unfolding parse_uint_def Cons by simp
qed

text \<open>
  C4, as the code has it.  \<open>MAX_NAME\<close> is 16.  A \<open>CREATE\<close> with a size argument, and a
  \<open>RENAME\<close> with an old name, whose (new) name has 16 characters or more, prints
  "name too long" and leaves the state as it is; and a \<open>CREATE\<close> or \<open>RENAME\<close> that
  prints \<open>OK\<close> had a (new) name of fewer than 16 characters.
\<close>

theorem name_length_limit:
  "MAX_NAME = 16
   \<and> (sz \<noteq> [] \<and> length nm \<ge> MAX_NAME
        \<longrightarrow> cmd_create ext (Some nm) (Some sz) s = (''ERR: name too long'' @ [CHR 0x0A], s))
   \<and> (old \<noteq> [] \<and> length new \<ge> MAX_NAME
        \<longrightarrow> cmd_rename (Some old) (Some new) s = (''ERR: name too long'' @ [CHR 0x0A], s))
   \<and> (fst (cmd_create ext (Some nm) b s) = ''OK'' @ [CHR 0x0A] \<longrightarrow> length nm < MAX_NAME)
   \<and> (fst (cmd_rename a (Some new) s) = ''OK'' @ [CHR 0x0A] \<longrightarrow> length new < MAX_NAME)"
proof -
  have p1: "sz \<noteq> [] \<and> length nm \<ge> MAX_NAME
        \<longrightarrow> cmd_create ext (Some nm) (Some sz) s = (''ERR: name too long'' @ [CHR 0x0A], s)"
    by (auto simp: cmd_create_def MAX_NAME_def)
  have p2: "old \<noteq> [] \<and> length new \<ge> MAX_NAME
        \<longrightarrow> cmd_rename (Some old) (Some new) s = (''ERR: name too long'' @ [CHR 0x0A], s)"
    by (auto simp: cmd_rename_def MAX_NAME_def)
  have p3: "fst (cmd_create ext (Some nm) b s) = ''OK'' @ [CHR 0x0A] \<longrightarrow> length nm < MAX_NAME"
    using cmd_create_cases[of ext "Some nm" b s "fst (cmd_create ext (Some nm) b s)"
        "snd (cmd_create ext (Some nm) b s)"]
    by auto
  have p4: "fst (cmd_rename a (Some new) s) = ''OK'' @ [CHR 0x0A] \<longrightarrow> length new < MAX_NAME"
    using cmd_rename_cases[of a "Some new" s "fst (cmd_rename a (Some new) s)"
        "snd (cmd_rename a (Some new) s)"]
    by auto
  show ?thesis using p1 p2 p3 p4 by (simp add: MAX_NAME_def)
qed

theorem name_length_limit_witness:
  "length ''ABCDEFGHIJKLMNOP'' \<ge> MAX_NAME
   \<and> cmd_create demo_ext (Some ''ABCDEFGHIJKLMNOP'') (Some ''1'') demo_two
       = (''ERR: name too long'' @ [CHR 0x0A], demo_two)
   \<and> cmd_rename (Some ''FOO'') (Some ''ABCDEFGHIJKLMNOP'') demo_two
       = (''ERR: name too long'' @ [CHR 0x0A], demo_two)
   \<and> fst (cmd_create demo_ext (Some ''BAZ'') (Some ''1'') demo_two) = ''OK'' @ [CHR 0x0A]
   \<and> fst (cmd_rename (Some ''FOO'') (Some ''BAZ'') demo_two) = ''OK'' @ [CHR 0x0A]
   \<and> length ''BAZ'' < MAX_NAME"
proof -
  have l: "length ''ABCDEFGHIJKLMNOP'' \<ge> MAX_NAME" by (simp add: MAX_NAME_def)
  have c: "fst (cmd_create demo_ext (Some ''BAZ'') (Some ''1'') demo_two) = ''OK'' @ [CHR 0x0A]"
    by code_simp
  have r: "fst (cmd_rename (Some ''FOO'') (Some ''BAZ'') demo_two) = ''OK'' @ [CHR 0x0A]"
    by code_simp
  note t1 = name_length_limit[of "''1''" "''ABCDEFGHIJKLMNOP''" demo_ext demo_two "''FOO''"
      "''ABCDEFGHIJKLMNOP''" None None]
  note t2 = name_length_limit[of "''1''" "''BAZ''" demo_ext demo_two "''FOO''" "''BAZ''"
      "Some ''1''" "Some ''FOO''"]
  have a1: "cmd_create demo_ext (Some ''ABCDEFGHIJKLMNOP'') (Some ''1'') demo_two
       = (''ERR: name too long'' @ [CHR 0x0A], demo_two)"
    using t1 l by simp
  have a2: "cmd_rename (Some ''FOO'') (Some ''ABCDEFGHIJKLMNOP'') demo_two
       = (''ERR: name too long'' @ [CHR 0x0A], demo_two)"
    using t1 l by simp
  have a3: "length ''BAZ'' < MAX_NAME" using t2 c by blast
  show ?thesis using l a1 a2 a3 c r by blast
qed

text \<open>
  C4 as stated fails: a name of exactly 15 characters is not rejected by \<open>CREATE\<close>; the
  command prints \<open>OK\<close> and stores the name.
\<close>

theorem name_of_15_chars_accepted:
  "length ''ABCDEFGHIJKLMNO'' = 15
   \<and> fst (cmd_create demo_ext (Some ''ABCDEFGHIJKLMNO'') (Some ''1'') demo_boot)
       = ''OK'' @ [CHR 0x0A]
   \<and> name (g_dir (snd (cmd_create demo_ext (Some ''ABCDEFGHIJKLMNO'') (Some ''1'') demo_boot)) ! 0)
       = ''ABCDEFGHIJKLMNO''
   \<and> used (g_dir (snd (cmd_create demo_ext (Some ''ABCDEFGHIJKLMNO'') (Some ''1'') demo_boot)) ! 0)
       = 1"
  by code_simp

text \<open>
  C5, as the code has it.  For a \<open>CREATE\<close> with both arguments present and a name that
  passes the checks before it (fewer than 16 characters, not the name of a used slot):
  when \<open>parse_uint\<close> returns 0 for the size text, the command prints "size must be > 0"
  and the whole state (table and allocator) is as before; when \<open>parse_uint\<close> returns a
  value other than 0, this message is not printed.  \<open>parse_uint\<close> returns 0 for the text
  \<open>0\<close> and for every text that, after its leading spaces, does not begin with a digit; it
  returns the value (modulo \<open>2^32\<close>) of the leading run of digits otherwise.
\<close>

theorem size_check:
  assumes "nm \<noteq> []" and "sz \<noteq> []" and "length nm < MAX_NAME" and "fs_find (g_dir s) nm = None"
  shows "(parse_uint sz = 0
        \<longrightarrow> cmd_create ext (Some nm) (Some sz) s = (''ERR: size must be > 0'' @ [CHR 0x0A], s))
    \<and> (parse_uint sz \<noteq> 0
        \<longrightarrow> fst (cmd_create ext (Some nm) (Some sz) s) \<noteq> ''ERR: size must be > 0'' @ [CHR 0x0A])
    \<and> (sz = ''0'' \<longrightarrow> parse_uint sz = 0)
    \<and> ((case dropWhile is_space sz of [] \<Rightarrow> True | c # cs \<Rightarrow> \<not> is_digit c)
        \<longrightarrow> parse_uint sz = 0)"
proof -
  have p1: "parse_uint sz = 0
        \<longrightarrow> cmd_create ext (Some nm) (Some sz) s = (''ERR: size must be > 0'' @ [CHR 0x0A], s)"
    using assms by (simp add: cmd_create_def)
  have p2: "parse_uint sz \<noteq> 0
        \<longrightarrow> fst (cmd_create ext (Some nm) (Some sz) s) \<noteq> ''ERR: size must be > 0'' @ [CHR 0x0A]"
    using assms by (auto simp: cmd_create_def Let_def split: option.splits prod.splits)
  have p3: "sz = ''0'' \<longrightarrow> parse_uint sz = 0"
    using parse_uint_zero_text by simp
  have p4: "(case dropWhile is_space sz of [] \<Rightarrow> True | c # cs \<Rightarrow> \<not> is_digit c)
        \<longrightarrow> parse_uint sz = 0"
    using parse_uint_no_digit by blast
  show ?thesis using p1 p2 p3 p4 by blast
qed

theorem size_check_witness:
  "fs_find (g_dir demo_two) ''BAZ'' = None
   \<and> cmd_create demo_ext (Some ''BAZ'') (Some ''0'') demo_two
       = (''ERR: size must be > 0'' @ [CHR 0x0A], demo_two)
   \<and> cmd_create demo_ext (Some ''BAZ'') (Some ''X1'') demo_two
       = (''ERR: size must be > 0'' @ [CHR 0x0A], demo_two)
   \<and> parse_uint ''7'' \<noteq> 0
   \<and> fst (cmd_create demo_ext (Some ''BAZ'') (Some ''7'') demo_two)
       \<noteq> ''ERR: size must be > 0'' @ [CHR 0x0A]"
proof -
  have f: "fs_find (g_dir demo_two) ''BAZ'' = None" by code_simp
  have v: "''BAZ'' \<noteq> []" "length ''BAZ'' < MAX_NAME" by (simp_all add: MAX_NAME_def)
  have x: "case dropWhile is_space ''X1'' of [] \<Rightarrow> True | c # cs \<Rightarrow> \<not> is_digit c"
    by (simp add: is_space_def is_digit_def)
  have s: "parse_uint ''7'' \<noteq> 0" by (simp add: parse_uint_def is_space_def is_digit_def)
  have a: "cmd_create demo_ext (Some ''BAZ'') (Some ''0'') demo_two
       = (''ERR: size must be > 0'' @ [CHR 0x0A], demo_two)"
    using size_check[OF v(1) _ v(2) f, of "''0''" demo_ext] by simp
  have b: "cmd_create demo_ext (Some ''BAZ'') (Some ''X1'') demo_two
       = (''ERR: size must be > 0'' @ [CHR 0x0A], demo_two)"
    using size_check[OF v(1) _ v(2) f, of "''X1''" demo_ext] x by simp
  have c: "fst (cmd_create demo_ext (Some ''BAZ'') (Some ''7'') demo_two)
       \<noteq> ''ERR: size must be > 0'' @ [CHR 0x0A]"
    using size_check[OF v(1) _ v(2) f, of "''7''" demo_ext] s by simp
  show ?thesis using f a b s c by blast
qed

text \<open>
  C5 as stated fails: the size text \<open>12AB\<close> is not a decimal integer, yet \<open>CREATE F 12AB\<close>
  prints \<open>OK\<close> and stores a record of size 12; and \<open>CREATE FOO 0\<close>, with \<open>FOO\<close> active,
  prints "exists", since the name is checked before the size.
\<close>

theorem size_text_with_digit_prefix_accepted:
  "\<not> list_all is_digit ''12AB''
   \<and> fst (user_input demo_ext ''CREATE F 12AB'' demo_boot) = ''OK'' @ [CHR 0x0A] @ ''> ''
   \<and> used (g_dir (snd (user_input demo_ext ''CREATE F 12AB'' demo_boot)) ! 0) = 1
   \<and> size_req (g_dir (snd (user_input demo_ext ''CREATE F 12AB'' demo_boot)) ! 0) = 12
   \<and> user_input demo_ext ''CREATE FOO 0'' demo_two
       = (''ERR: exists'' @ [CHR 0x0A] @ ''> '', demo_two)"
  by code_simp
















text \<open>
  C6 fails on the code at the line \<open>RENAME FOO B C\<close>: the keyword and the first argument
  are cut at the next space, the second argument is not, so \<open>cmd_rename\<close> receives
  \<open>B C\<close> and stores it as the name.
\<close>

theorem second_argument_runs_to_line_end:
  "parse_line (to_upper_inplace ''RENAME FOO B C'') = Some (''RENAME'', Some ''FOO'', Some ''B C'')
   \<and> fst (user_input demo_ext ''RENAME FOO B C'' demo_two) = ''OK'' @ [CHR 0x0A] @ ''> ''
   \<and> name (g_dir (snd (user_input demo_ext ''RENAME FOO B C'' demo_two)) ! 0) = ''B C''"
  by code_simp

text \<open>
  C1 fails on the code at the line \<open>CREATE F 4294967295\<close>: \<open>round_up_page\<close> adds 4095 in
  32 bits, the sum wraps, and the record is stored with \<open>alloc_bytes = 0\<close>, below its
  size.
\<close>

theorem page_rounding_wraps:
  "round_up_page 4294967295 = 0
   \<and> fst (user_input demo_ext ''CREATE F 4294967295'' demo_boot) = ''OK'' @ [CHR 0x0A] @ ''> ''
   \<and> used (g_dir (snd (user_input demo_ext ''CREATE F 4294967295'' demo_boot)) ! 0) = 1
   \<and> size_req (g_dir (snd (user_input demo_ext ''CREATE F 4294967295'' demo_boot)) ! 0)
       = 4294967295
   \<and> alloc_bytes (g_dir (snd (user_input demo_ext ''CREATE F 4294967295'' demo_boot)) ! 0) = 0"
  by code_simp

lemma and_not_4095: "(x::u32) AND NOT 4095 = push_bit 12 (drop_bit 12 x)"
proof -
  have m: "(4095::u32) = mask 12" by (simp add: mask_eq_exp_minus_1)
  show ?thesis unfolding m by (rule bit_eqI) (auto simp: bit_simps)
qed

lemma unat_and_not_4095: "unat ((x::u32) AND NOT 4095) = (unat x div 4096) * 4096"
proof -
  have "unat (push_bit 12 (drop_bit 12 x)) = take_bit 32 (push_bit 12 (unat (drop_bit 12 x)))"
    by (simp add: unsigned_push_bit_eq)
  also have "\<dots> = ((unat x div 4096) * 4096) mod 2 ^ 32"
    by (simp add: unat_drop_bit_eq drop_bit_eq_div push_bit_eq_mult take_bit_eq_mod unat_div)
  also have "\<dots> = (unat x div 4096) * 4096"
  proof -
    have "(unat x div 4096) * 4096 \<le> unat x" by simp
    moreover have "unat x < 2 ^ 32" using unsigned_less[of x] by simp
    ultimately show ?thesis by simp
  qed
  finally show ?thesis unfolding and_not_4095 .
qed

lemma round_up_page_eq: "round_up_page n = (n + 4095) AND NOT 4095"
  by (simp add: round_up_page_def ac_simps)

lemma round_up_page_aligned: "unat (round_up_page n) mod 4096 = 0"
  unfolding round_up_page_eq unat_and_not_4095 by simp

lemma round_up_page_exact:
  assumes "unat n \<le> 4294963200"
  shows "unat (round_up_page n) = ((unat n + 4095) div 4096) * 4096"
proof -
  have "unat (n + 4095) = unat n + 4095"
    using assms by (simp add: unat_word_ariths)
  then show ?thesis unfolding round_up_page_eq unat_and_not_4095 by simp
qed

lemma round_up_page_ge:
  assumes "unat n \<le> 4294963200"
  shows "unat n \<le> unat (round_up_page n)"
proof -
  define k where "k = unat n + 4095"
  have "k div 4096 * 4096 + k mod 4096 = k" by simp
  moreover have "k mod 4096 < 4096" by simp
  ultimately have "unat n \<le> k div 4096 * 4096" unfolding k_def by linarith
  then show ?thesis unfolding round_up_page_exact[OF assms] k_def .
qed

lemma round_up_page_least:
  assumes "unat n \<le> 4294963200" and "4096 dvd m" and "unat n \<le> m"
  shows "unat (round_up_page n) \<le> m"
proof -
  obtain q where q: "m = 4096 * q" using assms(2) by (auto simp: dvd_def)
  have "(unat n + 4095) div 4096 \<le> (4096 * q + 4095) div 4096"
    using assms(3) q by (intro div_le_mono) simp
  also have "\<dots> = q" by simp
  finally have "(unat n + 4095) div 4096 * 4096 \<le> q * 4096" by simp
  then show ?thesis unfolding round_up_page_exact[OF assms(1)] q by simp
qed

lemma user_input_sizes:
  assumes "user_input ext line s = (out, s')" "sizes_rounded (g_dir s)"
    "length (g_dir s) = MAX_FILES"
  shows "sizes_rounded (g_dir s')"
  using user_input_out_cases[OF assms(1)]
proof (elim disjE exE conjE)
  assume "g_dir s' = g_dir s"
  then show ?thesis using assms(2) by simp
next
  fix a b out1
  assume c: "cmd_create ext a b s = (out1, s')"
  show ?thesis
    using cmd_create_cases[OF c]
  proof (elim disjE exE conjE)
    assume "g_dir s' = g_dir s"
    then show ?thesis using assms(2) by simp
  next
    fix n sz slot dat ph
    assume h: "parse_uint sz \<noteq> 0" "free_slot (g_dir s) = Some slot"
      "g_dir s' = (g_dir s)[slot := \<lparr>name = n, size_req = parse_uint sz,
              alloc_bytes = round_up_page (parse_uint sz), data = dat, phys = ph, used = 1\<rparr>]"
    have sl: "slot < MAX_FILES" using h(2) by (simp add: free_slot_Some)
    show ?thesis
      using assms(2,3) sl h(1,3) by (auto simp: sizes_rounded_def nth_list_update)
  qed
next
  fix a b out1
  assume c: "cmd_rename a b s = (out1, s')"
  show ?thesis
    using cmd_rename_cases[OF c]
  proof (elim disjE exE conjE)
    assume "s' = s"
    then show ?thesis using assms(2) by simp
  next
    fix old new idx
    assume h: "fs_find (g_dir s) old = Some idx"
      "s' = s\<lparr>g_dir := (g_dir s)[idx := (g_dir s ! idx)\<lparr>name := new\<rparr>]\<rparr>"
    have sl: "idx < MAX_FILES" using fs_find_Some[OF h(1)] by simp
    show ?thesis
      using assms(2,3) sl h(2) by (auto simp: sizes_rounded_def nth_list_update)
  qed
next
  fix a out1
  assume c: "cmd_del a s = (out1, s')"
  show ?thesis
    using cmd_del_cases[OF c]
  proof (elim disjE exE conjE)
    assume "s' = s"
    then show ?thesis using assms(2) by simp
  next
    fix n idx
    assume h: "fs_find (g_dir s) n = Some idx" "s' = s\<lparr>g_dir := (g_dir s)[idx := blank_entry]\<rparr>"
    have sl: "idx < MAX_FILES" using fs_find_Some[OF h(1)] by simp
    show ?thesis
      using assms(2,3) sl h(2)
      by (auto simp: sizes_rounded_def nth_list_update blank_entry_def)
  qed
qed

lemma reachable_sizes: "reachable ext s \<Longrightarrow> sizes_rounded (g_dir s)"
proof (induction rule: reachable.induct)
  case (reach_init raw h)
  show ?case by (simp add: sizes_rounded_def fs_init_used)
next
  case (reach_step s line)
  show ?case
    by (rule user_input_sizes[OF _ reach_step.IH reachable_len[OF reach_step.hyps]])
       (rule prod.collapse[symmetric])
qed

text \<open>
  Page rounding in the reachable states: the allocation of a used slot is a multiple of
  4096, and it is the least multiple of 4096 not below the size whenever the size is at
  most \<open>2^32 - 4096\<close>.
\<close>

lemma reachable_alloc_bytes:
  assumes "reachable ext s" and "i < MAX_FILES" and "used (g_dir s ! i) \<noteq> 0"
  shows "unat (alloc_bytes (g_dir s ! i)) mod 4096 = 0"
    and "unat (size_req (g_dir s ! i)) \<le> 4294963200 \<Longrightarrow>
           unat (size_req (g_dir s ! i)) \<le> unat (alloc_bytes (g_dir s ! i))"
    and "unat (size_req (g_dir s ! i)) \<le> 4294963200 \<Longrightarrow> 4096 dvd m \<Longrightarrow>
           unat (size_req (g_dir s ! i)) \<le> m \<Longrightarrow> unat (alloc_bytes (g_dir s ! i)) \<le> m"
proof -
  have a: "alloc_bytes (g_dir s ! i) = round_up_page (size_req (g_dir s ! i))"
    using reachable_sizes[OF assms(1)] assms(2,3) by (simp add: sizes_rounded_def)
  show "unat (alloc_bytes (g_dir s ! i)) mod 4096 = 0"
    unfolding a by (rule round_up_page_aligned)
  show "unat (size_req (g_dir s ! i)) \<le> 4294963200 \<Longrightarrow>
           unat (size_req (g_dir s ! i)) \<le> unat (alloc_bytes (g_dir s ! i))"
    unfolding a by (rule round_up_page_ge)
  show "unat (size_req (g_dir s ! i)) \<le> 4294963200 \<Longrightarrow> 4096 dvd m \<Longrightarrow>
           unat (size_req (g_dir s ! i)) \<le> m \<Longrightarrow> unat (alloc_bytes (g_dir s ! i)) \<le> m"
    unfolding a by (rule round_up_page_least)
qed

text \<open>
  The shape of the tokens: the keyword and the first argument are non-empty and free of
  spaces; the second argument is non-empty and begins with a character other than a
  space.
\<close>

lemma next_token_shape:
  assumes "next_token p = Some r"
  shows "r \<noteq> [] \<and> \<not> is_space (hd r)"
proof -
  obtain t where t: "p = Some t" using assms by (cases p) simp_all
  have r: "r = dropWhile is_space t" "dropWhile is_space t \<noteq> []"
    using assms t by (auto simp: Let_def split: if_splits)
  then show ?thesis using hd_dropWhile[of is_space t] by simp
qed

lemma cut_token_shape:
  assumes "r \<noteq> []" and "\<not> is_space (hd r)"
  shows "fst (cut_token r) \<noteq> [] \<and> (\<forall>c\<in>set (fst (cut_token r)). \<not> is_space c)"
proof -
  obtain c cs where r: "r = c # cs" using assms(1) by (cases r) auto
  have "\<not> is_space c" using assms(2) r by simp
  then have "takeWhile (\<lambda>c. \<not> is_space c) r \<noteq> []" using r by simp
  moreover have "\<forall>c\<in>set (takeWhile (\<lambda>c. \<not> is_space c) r). \<not> is_space c"
    by (auto dest: set_takeWhileD)
  ultimately show ?thesis by (simp add: cut_token_def Let_def)
qed

lemma parse_line_shape:
  assumes "parse_line inp = Some (c, a, b)"
  shows "c \<noteq> [] \<and> (\<forall>x\<in>set c. \<not> is_space x)"
    and "a = Some t \<Longrightarrow> t \<noteq> [] \<and> (\<forall>x\<in>set t. \<not> is_space x)"
    and "b = Some u \<Longrightarrow> u \<noteq> [] \<and> \<not> is_space (hd u)"
proof -
  obtain cmd where cmd: "next_token (Some inp) = Some cmd"
    using assms by (auto simp: parse_line_def split: option.splits)
  obtain ct p where ct: "cut_token cmd = (ct, p)" by (cases "cut_token cmd")
  have cs: "ct \<noteq> [] \<and> (\<forall>x\<in>set ct. \<not> is_space x)"
    using cut_token_shape[of cmd] next_token_shape[OF cmd] ct by simp
  show "c \<noteq> [] \<and> (\<forall>x\<in>set c. \<not> is_space x)"
    using assms cmd ct cs by (auto simp: parse_line_def split: option.splits prod.splits)
  show "a = Some t \<Longrightarrow> t \<noteq> [] \<and> (\<forall>x\<in>set t. \<not> is_space x)"
  proof -
    assume at: "a = Some t"
    then obtain arg1 where a1: "next_token p = Some arg1"
      using assms cmd ct by (auto simp: parse_line_def split: option.splits prod.splits)
    have "t = fst (cut_token arg1)"
      using assms cmd ct a1 at by (auto simp: parse_line_def split: prod.splits)
    then show ?thesis using cut_token_shape[of arg1] next_token_shape[OF a1] by simp
  qed
  show "b = Some u \<Longrightarrow> u \<noteq> [] \<and> \<not> is_space (hd u)"
  proof -
    assume bu: "b = Some u"
    then obtain q where "next_token q = Some u"
      using assms cmd ct by (auto simp: parse_line_def split: option.splits prod.splits)
    then show ?thesis by (rule next_token_shape)
  qed
qed

end
